theory Spec2Isabelle
  imports Main "HOL-Library.Word"
begin

unbundle bit_operations_syntax

section \<open>IPv4 subnet calculator (main.go)\<close>

text \<open>
  A shallow embedding of \<^verbatim>\<open>isValidSubnetMask\<close>, \<^verbatim>\<open>parseSubnetMask\<close> and
  \<^verbatim>\<open>calculateSubnet\<close> of main.go, together with the functions of Go's standard
  library they call (\<^verbatim>\<open>strings.TrimSpace\<close>, \<^verbatim>\<open>strings.HasPrefix\<close>, \<^verbatim>\<open>strconv.Atoi\<close>,
  \<^verbatim>\<open>net.ParseIP\<close>, \<^verbatim>\<open>IP.To4\<close>, \<^verbatim>\<open>net.CIDRMask\<close>, \<^verbatim>\<open>IPMask.Size\<close>, \<^verbatim>\<open>IP.Mask\<close>,
  \<^verbatim>\<open>IP.String\<close>, \<^verbatim>\<open>fmt.Sprintf("%d")\<close>). The library functions are modelled after
  the Go release the repository builds with (Go 1.24, 64-bit \<^verbatim>\<open>int\<close>).

  A Go string is a sequence of bytes: it is a \<^typ>\<open>string\<close> here, and \<open>byteOf c\<close> is
  the numeric value of the byte \<open>c\<close>. A byte slice (\<^verbatim>\<open>net.IP\<close>, \<^verbatim>\<open>net.IPMask\<close>) is a
  list of 8-bit words; a nil slice returned to signal failure is \<open>None\<close>.
\<close>

type_synonym byte = "8 word"

definition byteOf :: "char \<Rightarrow> nat" where
  "byteOf c = of_char c"

subsection \<open>strconv.Atoi\<close>

definition isDigit :: "char \<Rightarrow> bool" where
  "isDigit c = (48 \<le> byteOf c \<and> byteOf c \<le> 57)"

definition digitVal :: "char \<Rightarrow> nat" where
  "digitVal c = byteOf c - 48"

text \<open>The digit loop \<^verbatim>\<open>n = n*10 + int(ch - '0')\<close>; a byte that is no digit is a syntax error.\<close>

fun Atoi_digits :: "nat \<Rightarrow> string \<Rightarrow> nat option" where
  "Atoi_digits n [] = Some n"
| "Atoi_digits n (ch # s) =
     (if isDigit ch then Atoi_digits (n * 10 + digitVal ch) s else None)"

text \<open>
  \<^verbatim>\<open>strconv.Atoi\<close>: an optional sign, then at least one decimal digit and nothing else.
  \<open>None\<close> is a non-nil error: a syntax error, or a range error when the value does not
  fit the 64-bit \<^verbatim>\<open>int\<close>.
\<close>

definition Atoi :: "string \<Rightarrow> int option" where
  "Atoi s0 =
     (case s0 of
        [] \<Rightarrow> None
      | c # cs \<Rightarrow>
          (let s = (if c = CHR ''-'' \<or> c = CHR ''+'' then cs else s0) in
           if s = [] then None
           else case Atoi_digits 0 s of
                  None \<Rightarrow> None
                | Some n \<Rightarrow>
                    (let v = (if c = CHR ''-'' then - int n else int n) in
                     if v < - (2 ^ 63) \<or> 2 ^ 63 - 1 < v then None else Some v)))"

subsection \<open>fmt.Sprintf("%d", n)\<close>

definition digitChar :: "nat \<Rightarrow> char" where
  "digitChar d = char_of (48 + d)"

text \<open>The formatting loop of \<^verbatim>\<open>fmt\<close>: digits are written from the least significant one.\<close>

function fmtInteger_loop :: "nat \<Rightarrow> string \<Rightarrow> string" where
  "fmtInteger_loop u buf =
     (if 10 \<le> u then fmtInteger_loop (u div 10) (digitChar (u - (u div 10) * 10) # buf)
      else digitChar u # buf)"
  by pat_completeness auto
termination
  by (relation "measure (\<lambda>(u, buf). u)") auto

declare fmtInteger_loop.simps [simp del]

definition Sprintf_d :: "int \<Rightarrow> string" where
  "Sprintf_d v =
     (if v < 0 then CHR ''-'' # fmtInteger_loop (nat (- v)) []
      else fmtInteger_loop (nat v) [])"

subsection \<open>net.CIDRMask, IPMask.Size, IP.Mask, IP.To4\<close>

text \<open>
  The loop of \<^verbatim>\<open>CIDRMask\<close> over the \<open>l\<close> bytes of the mask: a byte is \<^verbatim>\<open>0xff\<close> while at
  least 8 one-bits remain, then \<^verbatim>\<open>^byte(0xff >> n)\<close>, then zero.
\<close>

fun CIDRMask_loop :: "nat \<Rightarrow> nat \<Rightarrow> byte list" where
  "CIDRMask_loop 0 n = []"
| "CIDRMask_loop (Suc l) n =
     (if 8 \<le> n then 0xff # CIDRMask_loop l (n - 8)
      else NOT (drop_bit n (0xff :: byte)) # CIDRMask_loop l 0)"

definition CIDRMask :: "int \<Rightarrow> int \<Rightarrow> byte list option" where
  "CIDRMask ones bits =
     (if bits \<noteq> 8 * 4 \<and> bits \<noteq> 8 * 16 then None
      else if ones < 0 \<or> bits < ones then None
      else Some (CIDRMask_loop (nat (bits div 8)) (nat ones)))"

text \<open>
  \<^verbatim>\<open>simpleMaskLength\<close>: whole \<^verbatim>\<open>0xff\<close> bytes count 8; in the first other byte the
  leading one-bits are counted (\<^verbatim>\<open>for v&0x80 != 0 { n++; v <<= 1 }\<close>), what is left of it
  and every later byte must be zero, else the result is \<open>-1\<close>.
\<close>

function countOnes :: "byte \<Rightarrow> int \<Rightarrow> byte \<times> int" where
  "countOnes v n = (if v AND 0x80 \<noteq> 0 then countOnes (push_bit 1 v) (n + 1) else (v, n))"
  by pat_completeness auto
termination
proof (relation "measure (\<lambda>(v, n). unat v)")
  show "wf (measure (\<lambda>(v :: byte, n :: int). unat v))"
    by simp
next
  fix v :: byte and n :: int
  assume a: "v AND 0x80 \<noteq> 0"
  have "bit v 7"
    using a and_exp_eq_0_iff_not_bit [of v 7] by simp
  then have "bit (unat v) 7"
    by (simp add: bit_unsigned_iff)
  then have "odd (unat v div 128)"
    by (simp add: bit_iff_odd)
  then have c: "128 \<le> unat v"
    by (cases "unat v < 128") auto
  have d: "unat v < 256"
    using unsigned_less [of v, where 'a = nat] by simp
  have e: "unat (push_bit 1 v) = (unat v * 2) mod 256"
    by (simp add: unat_word_ariths push_bit_eq_mult)
  have "unat v * 2 mod 256 = unat v * 2 - 256"
    using c d by (simp add: mod_if)
  then have "unat (push_bit 1 v) < unat v"
    unfolding e using c d by arith
  then show "((push_bit 1 v, n + 1), v, n) \<in> measure (\<lambda>(v, n). unat v)"
    by simp
qed

declare countOnes.simps [simp del]

fun simpleMaskLength_loop :: "byte list \<Rightarrow> int \<Rightarrow> int" where
  "simpleMaskLength_loop [] n = n"
| "simpleMaskLength_loop (v # rest) n =
     (if v = 0xff then simpleMaskLength_loop rest (n + 8)
      else case countOnes v n of
             (v', n') \<Rightarrow>
               if v' \<noteq> 0 then - 1
               else if list_ex (\<lambda>b. b \<noteq> 0) rest then - 1
               else n')"

definition simpleMaskLength :: "byte list \<Rightarrow> int" where
  "simpleMaskLength m = simpleMaskLength_loop m 0"

definition Size :: "byte list \<Rightarrow> int \<times> int" where
  "Size m =
     (let ones = simpleMaskLength m; bits = int (length m) * 8
      in if ones = - 1 then (0, 0) else (ones, bits))"

definition v4InV6Prefix :: "byte list" where
  "v4InV6Prefix = [0, 0, 0, 0, 0, 0, 0, 0, 0, 0, 0xff, 0xff]"

definition allFF :: "byte list \<Rightarrow> bool" where
  "allFF b = list_all (\<lambda>c. c = 0xff) b"

text \<open>\<^verbatim>\<open>IP.Mask\<close>: byte-wise AND of slices of equal length, nil when the lengths differ.\<close>

definition Mask :: "byte list \<Rightarrow> byte list \<Rightarrow> byte list option" where
  "Mask ip m =
     (let mask1 = (if length m = 16 \<and> length ip = 4 \<and> allFF (take 12 m)
                   then drop 12 m else m);
          ip1 = (if length mask1 = 4 \<and> length ip = 16 \<and> take 12 ip = v4InV6Prefix
                 then drop 12 ip else ip)
      in if length ip1 \<noteq> length mask1 then None
         else Some (map2 (\<lambda>a b. a AND b) ip1 mask1))"

definition isZeros :: "byte list \<Rightarrow> bool" where
  "isZeros p = list_all (\<lambda>c. c = 0) p"

definition To4 :: "byte list \<Rightarrow> byte list option" where
  "To4 ip =
     (if length ip = 4 then Some ip
      else if length ip = 16 \<and> isZeros (take 10 ip) \<and> ip ! 10 = 0xff \<and> ip ! 11 = 0xff
      then Some (take 4 (drop 12 ip))
      else None)"

subsection \<open>net.ParseIP\<close>

text \<open>
  \<^verbatim>\<open>netip.parseIPv4Fields\<close>: the loop over the bytes of the string, with the value
  \<open>val\<close> of the octet being read, its number of digits \<open>digLen\<close> and the number \<open>pos\<close>
  of octets stored. \<open>prev\<close> is the byte before the current one (\<^verbatim>\<open>s[i-1]\<close>, \<open>None\<close>
  when \<^verbatim>\<open>i == 0\<close>), and the current byte is the last one (\<^verbatim>\<open>i == len(s)-1\<close>) when
  nothing follows it. Every error return is \<open>None\<close>.
\<close>

fun parseIPv4Fields_loop ::
  "char option \<Rightarrow> string \<Rightarrow> nat \<Rightarrow> nat \<Rightarrow> nat \<Rightarrow> byte list \<Rightarrow> byte list option" where
  "parseIPv4Fields_loop prev [] val pos digLen fields =
     (if pos < 3 then None else Some (fields[3 := of_nat val]))"
| "parseIPv4Fields_loop prev (c # rest) val pos digLen fields =
     (if isDigit c then
        (if digLen = 1 \<and> val = 0 then None
         else let val' = val * 10 + digitVal c in
           if 255 < val' then None
           else parseIPv4Fields_loop (Some c) rest val' pos (digLen + 1) fields)
      else if c = CHR ''.'' then
        (if prev = None \<or> rest = [] \<or> prev = Some (CHR ''.'') then None
         else if pos = 3 then None
         else parseIPv4Fields_loop (Some c) rest 0 (pos + 1) 0 (fields[pos := of_nat val]))
      else None)"

declare parseIPv4Fields_loop.simps [simp del]

definition parseIPv4Fields :: "string \<Rightarrow> byte list \<Rightarrow> byte list option" where
  "parseIPv4Fields s fields = parseIPv4Fields_loop None s 0 0 0 fields"

text \<open>
  A \<^verbatim>\<open>netip.Addr\<close> is an IPv4 address of 4 bytes, or an IPv6 address of 16 bytes with a
  zone (empty when there is none).
\<close>

datatype Addr = Addr4 "byte list" | Addr6 "byte list" string

definition parseIPv4 :: "string \<Rightarrow> Addr option" where
  "parseIPv4 s = map_option Addr4 (parseIPv4Fields s [0, 0, 0, 0])"

definition hexVal :: "char \<Rightarrow> 32 word option" where
  "hexVal c =
     (if 48 \<le> byteOf c \<and> byteOf c \<le> 57 then Some (of_nat (byteOf c - 48))
      else if 97 \<le> byteOf c \<and> byteOf c \<le> 102 then Some (of_nat (byteOf c - 97 + 10))
      else if 65 \<le> byteOf c \<and> byteOf c \<le> 70 then Some (of_nat (byteOf c - 65 + 10))
      else None)"

text \<open>
  The hex-number loop of \<^verbatim>\<open>parseIPv6\<close>: it stops at the first byte that is no hex
  digit and yields the number \<open>off\<close> of digits read and their value \<open>acc\<close>; more than
  four digits or a value above \<^verbatim>\<open>0xFFFF\<close> is an error.
\<close>

fun hexScan :: "string \<Rightarrow> nat \<Rightarrow> 32 word \<Rightarrow> (nat \<times> 32 word) option" where
  "hexScan [] off acc = Some (off, acc)"
| "hexScan (c # cs) off acc =
     (case hexVal c of
        None \<Rightarrow> Some (off, acc)
      | Some d \<Rightarrow>
          (let acc' = push_bit 4 acc + d in
           if 3 < off then None
           else if 0xFFFF < acc' then None
           else hexScan cs (off + 1) acc'))"

text \<open>
  The main loop of \<^verbatim>\<open>parseIPv6\<close> (\<^verbatim>\<open>for i < 16\<close>) over the rest \<open>s\<close> of the string, the
  number \<open>i\<close> of bytes of \<open>ip\<close> filled and the position of the ellipsis (\<open>-1\<close> when none
  was seen). It yields the state in which the loop is left, or \<open>None\<close> for an error.
  A group followed by a dot starts an embedded IPv4 address, which is the rest of
  the string.
\<close>

function parseIPv6_loop ::
  "string \<Rightarrow> nat \<Rightarrow> byte list \<Rightarrow> int \<Rightarrow> (string \<times> nat \<times> byte list \<times> int) option" where
  "parseIPv6_loop s i ip ellipsis =
     (if i < 16 then
        (case hexScan s 0 0 of
           None \<Rightarrow> None
         | Some (off, acc) \<Rightarrow>
             if off = 0 then None
             else if off < length s \<and> s ! off = CHR ''.'' then
               (if ellipsis < 0 \<and> i \<noteq> 12 then None
                else if 16 < i + 4 then None
                else case parseIPv4Fields s (take 4 (drop i ip)) of
                       None \<Rightarrow> None
                     | Some f \<Rightarrow> Some ([], i + 4, take i ip @ f @ drop (i + 4) ip, ellipsis))
             else
               (let ip' = ip[i := ucast (drop_bit 8 acc), i + 1 := ucast acc];
                    i' = i + 2;
                    s' = drop off s
                in if s' = [] then Some (s', i', ip', ellipsis)
                   else if hd s' \<noteq> CHR '':'' then None
                   else if length s' = 1 then None
                   else if hd (tl s') = CHR '':'' then
                     (if 0 \<le> ellipsis then None
                      else if tl (tl s') = [] then Some ([], i', ip', int i')
                      else parseIPv6_loop (tl (tl s')) i' ip' (int i'))
                   else parseIPv6_loop (tl s') i' ip' ellipsis))
      else Some (s, i, ip, ellipsis))"
  by pat_completeness auto
termination
  by (relation "measure (\<lambda>(s, i, ip, ellipsis). 16 - i)") auto

declare parseIPv6_loop.simps [simp del]

text \<open>
  What \<^verbatim>\<open>parseIPv6\<close> does with the string \<open>s\<close> left of the zone: a leading ellipsis,
  the main loop, the check that the whole string was used, and the expansion of the
  ellipsis into zero bytes.
\<close>

definition parseIPv6_groups :: "string \<Rightarrow> string \<Rightarrow> Addr option" where
  "parseIPv6_groups s zone =
     (let lead = (2 \<le> length s \<and> s ! 0 = CHR '':'' \<and> s ! 1 = CHR '':'');
          ellipsis = (if lead then 0 else - 1);
          s1 = (if lead then drop 2 s else s)
      in if lead \<and> s1 = [] then Some (Addr6 (replicate 16 0) zone)
         else case parseIPv6_loop s1 0 (replicate 16 0) ellipsis of
                None \<Rightarrow> None
              | Some (s2, i, ip, ellipsis') \<Rightarrow>
                  if s2 \<noteq> [] then None
                  else if i < 16 then
                    (if ellipsis' < 0 then None
                     else let e = nat ellipsis'; n = 16 - i
                          in Some (Addr6 (take e ip @ replicate n 0 @ take (i - e) (drop e ip)) zone))
                  else if 0 \<le> ellipsis' then None
                  else Some (Addr6 ip zone))"

definition parseIPv6 :: "string \<Rightarrow> Addr option" where
  "parseIPv6 inp =
     (if CHR ''%'' \<in> set inp then
        (let s = takeWhile (\<lambda>c. c \<noteq> CHR ''%'') inp;
             zone = tl (dropWhile (\<lambda>c. c \<noteq> CHR ''%'') inp)
         in if zone = [] then None else parseIPv6_groups s zone)
      else parseIPv6_groups inp [])"

text \<open>\<^verbatim>\<open>netip.ParseAddr\<close>: the first dot, colon or percent sign chooses the parser.\<close>

fun ParseAddr_scan :: "string \<Rightarrow> string \<Rightarrow> Addr option" where
  "ParseAddr_scan s [] = None"
| "ParseAddr_scan s (c # cs) =
     (if c = CHR ''.'' then parseIPv4 s
      else if c = CHR '':'' then parseIPv6 s
      else if c = CHR ''%'' then None
      else ParseAddr_scan s cs)"

definition ParseAddr :: "string \<Rightarrow> Addr option" where
  "ParseAddr s = ParseAddr_scan s s"

fun Zone :: "Addr \<Rightarrow> string" where
  "Zone (Addr4 q) = []"
| "Zone (Addr6 b z) = z"

fun As16 :: "Addr \<Rightarrow> byte list" where
  "As16 (Addr4 q) = v4InV6Prefix @ q"
| "As16 (Addr6 b z) = b"

text \<open>
  \<^verbatim>\<open>net.ParseIP\<close>: the 16-byte form of the address, nil for a string that is no
  IP address or has a zone.
\<close>

definition ParseIP :: "string \<Rightarrow> byte list option" where
  "ParseIP s =
     (case ParseAddr s of
        None \<Rightarrow> None
      | Some a \<Rightarrow> if Zone a \<noteq> [] then None else Some (As16 a))"

subsection \<open>IP.String\<close>

definition appendDecimal :: "string \<Rightarrow> byte \<Rightarrow> string" where
  "appendDecimal b x =
     (let b1 = (if 100 \<le> unat x then b @ [digitChar (unat x div 100)] else b);
          b2 = (if 10 \<le> unat x then b1 @ [digitChar (unat x div 10 mod 10)] else b1)
      in b2 @ [digitChar (unat x mod 10)])"

text \<open>\<^verbatim>\<open>netip.Addr.string4\<close> on the four bytes of an IPv4 address.\<close>

definition string4 :: "byte list \<Rightarrow> string" where
  "string4 ip =
     appendDecimal (appendDecimal (appendDecimal (appendDecimal [] (ip ! 0) @ ''.'')
       (ip ! 1) @ ''.'') (ip ! 2) @ ''.'') (ip ! 3)"

definition hexString :: "byte list \<Rightarrow> string" where
  "hexString b =
     concat (map (\<lambda>tn. [''0123456789abcdef'' ! unat (drop_bit 4 tn),
                        ''0123456789abcdef'' ! unat (tn AND 0xf)]) b)"

text \<open>
  \<^verbatim>\<open>IP.String\<close>. The text form of an IPv6 address that is not an IPv4-mapped one is
  not modelled: the result is \<open>None\<close> there.
\<close>

definition IP_String :: "byte list \<Rightarrow> string option" where
  "IP_String ip =
     (if length ip = 0 then Some ''<nil>''
      else if length ip \<noteq> 4 \<and> length ip \<noteq> 16 then Some (''?'' @ hexString ip)
      else case To4 ip of
             Some p4 \<Rightarrow> Some (string4 p4)
           | None \<Rightarrow> None)"

subsection \<open>strings.HasPrefix, strings.TrimSpace\<close>

definition HasPrefix :: "string \<Rightarrow> string \<Rightarrow> bool" where
  "HasPrefix s pre = (length pre \<le> length s \<and> take (length pre) s = pre)"

text \<open>The table \<^verbatim>\<open>asciiSpace\<close>: tab, line feed, vertical tab, form feed, carriage return, space.\<close>

definition asciiSpace :: "char \<Rightarrow> bool" where
  "asciiSpace c = (byteOf c \<in> {9, 10, 11, 12, 13, 32})"

definition RuneError :: nat where
  "RuneError = 0xFFFD"

text \<open>
  The table \<^verbatim>\<open>first\<close> of package \<^verbatim>\<open>utf8\<close>, by ranges of the first byte: \<^verbatim>\<open>0xF0\<close> for
  ASCII, \<^verbatim>\<open>0xF1\<close> for an invalid first byte, else the size of the sequence in the low
  bits and the index of the accepted range of the second byte in the high bits.
\<close>

definition first :: "nat \<Rightarrow> nat" where
  "first b =
     (if b < 0x80 then 0xF0
      else if b < 0xC2 then 0xF1
      else if b < 0xE0 then 0x02
      else if b = 0xE0 then 0x13
      else if b < 0xED then 0x03
      else if b = 0xED then 0x23
      else if b < 0xF0 then 0x03
      else if b = 0xF0 then 0x34
      else if b < 0xF4 then 0x04
      else if b = 0xF4 then 0x44
      else 0xF1)"

definition acceptRanges :: "nat \<Rightarrow> nat \<times> nat" where
  "acceptRanges k =
     (if k = 0 then (0x80, 0xBF)
      else if k = 1 then (0xA0, 0xBF)
      else if k = 2 then (0x80, 0x9F)
      else if k = 3 then (0x90, 0xBF)
      else (0x80, 0x8F))"

text \<open>
  \<^verbatim>\<open>utf8.DecodeRuneInString\<close>: the first rune of the string and its width in bytes;
  \<open>(RuneError, 1)\<close> for an invalid or incomplete encoding, \<open>(RuneError, 0)\<close> for the
  empty string. The bit masks of the source are written as \<open>mod\<close> and the shifts as
  multiplications.
\<close>

definition DecodeRuneInString :: "string \<Rightarrow> nat \<times> nat" where
  "DecodeRuneInString s =
     (let n = length s in
      if n < 1 then (RuneError, 0)
      else
        let s0 = byteOf (s ! 0); x = first s0 in
        if 0xF0 \<le> x then (if x = 0xF1 then RuneError else s0, 1)
        else
          let sz = x mod 8; accept = acceptRanges (x div 16) in
          if n < sz then (RuneError, 1)
          else
            let s1 = byteOf (s ! 1) in
            if s1 < fst accept \<or> snd accept < s1 then (RuneError, 1)
            else if sz \<le> 2 then ((s0 mod 32) * 64 + s1 mod 64, 2)
            else
              let s2 = byteOf (s ! 2) in
              if s2 < 0x80 \<or> 0xBF < s2 then (RuneError, 1)
              else if sz \<le> 3 then ((s0 mod 16) * 4096 + (s1 mod 64) * 64 + s2 mod 64, 3)
              else
                let s3 = byteOf (s ! 3) in
                if s3 < 0x80 \<or> 0xBF < s3 then (RuneError, 1)
                else ((s0 mod 8) * 262144 + (s1 mod 64) * 4096 + (s2 mod 64) * 64
                        + s3 mod 64, 4))"

definition RuneStart :: "char \<Rightarrow> bool" where
  "RuneStart b = (\<not> (0x80 \<le> byteOf b \<and> byteOf b < 0xC0))"

text \<open>
  The backward scan of \<^verbatim>\<open>utf8.DecodeLastRuneInString\<close>
  (\<^verbatim>\<open>for start--; start >= lim; start-- { if RuneStart(s[start]) { break } }\<close>), entered
  after the first decrement.
\<close>

function DecodeLastRune_scan :: "string \<Rightarrow> int \<Rightarrow> int \<Rightarrow> int" where
  "DecodeLastRune_scan s start lim =
     (if lim \<le> start then
        (if RuneStart (s ! nat start) then start else DecodeLastRune_scan s (start - 1) lim)
      else start)"
  by pat_completeness auto
termination
  by (relation "measure (\<lambda>(s, start, lim). nat (start + 1 - lim))") auto

declare DecodeLastRune_scan.simps [simp del]

text \<open>
  Where \<^verbatim>\<open>DecodeLastRuneInString\<close> starts to decode: at most \<^verbatim>\<open>UTFMax = 4\<close> bytes
  before the end, at the last byte that can start a rune.
\<close>

definition DecodeLastRune_start :: "string \<Rightarrow> int" where
  "DecodeLastRune_start s =
     (let end = int (length s);
          lim = (if end - 4 < 0 then 0 else end - 4);
          start = DecodeLastRune_scan s (end - 1 - 1) lim
      in if start < 0 then 0 else start)"

definition DecodeLastRuneInString :: "string \<Rightarrow> nat \<times> nat" where
  "DecodeLastRuneInString s =
     (if length s = 0 then (RuneError, 0)
      else if byteOf (s ! (length s - 1)) < 0x80 then (byteOf (s ! (length s - 1)), 1)
      else
        case DecodeRuneInString (drop (nat (DecodeLastRune_start s)) s) of
          (r, wid) \<Rightarrow>
            if DecodeLastRune_start s + int wid \<noteq> int (length s) then (RuneError, 1)
            else (r, wid))"

text \<open>\<^verbatim>\<open>unicode.IsSpace\<close>: the Latin-1 cases, and above them the table \<^verbatim>\<open>White_Space\<close>.\<close>

definition IsSpace :: "nat \<Rightarrow> bool" where
  "IsSpace r =
     (if r \<le> 0xFF then r \<in> {9, 10, 11, 12, 13, 32, 0x85, 0xA0}
      else r = 0x1680 \<or> (0x2000 \<le> r \<and> r \<le> 0x200a) \<or> r = 0x2028 \<or> r = 0x2029
           \<or> r = 0x202f \<or> r = 0x205f \<or> r = 0x3000)"

text \<open>A decoded rune is at least one byte wide: the loops below advance.\<close>

lemma DecodeRune_wid: "s \<noteq> [] \<Longrightarrow> 1 \<le> snd (DecodeRuneInString s)"
  by (simp add: DecodeRuneInString_def Let_def)

lemma DecodeLastRune_scan_le: "DecodeLastRune_scan s start lim \<le> start"
  by (induction s start lim rule: DecodeLastRune_scan.induct)
    (subst DecodeLastRune_scan.simps, auto)

lemma DecodeLastRune_start_less: "p \<noteq> [] \<Longrightarrow> nat (DecodeLastRune_start p) < length p"
  using DecodeLastRune_scan_le [of p "int (length p) - 1 - 1"
      "if int (length p) - 4 < 0 then 0 else int (length p) - 4"]
  by (auto simp: DecodeLastRune_start_def Let_def)

lemma DecodeLastRune_wid:
  assumes "p \<noteq> []"
  shows "1 \<le> snd (DecodeLastRuneInString p)"
proof -
  have "1 \<le> snd (DecodeRuneInString (drop (nat (DecodeLastRune_start p)) p))"
    using DecodeLastRune_start_less [OF assms] by (intro DecodeRune_wid) simp
  then show ?thesis
    using assms
    by (auto simp add: DecodeLastRuneInString_def split: prod.splits)
qed

text \<open>
  \<^verbatim>\<open>indexFunc\<close>: the byte index of the first rune \<open>r\<close> of \<open>s\<close> with \<open>f r = truth\<close>, or
  \<open>-1\<close>. The \<^verbatim>\<open>range\<close> loop over a string decodes one rune at a time, as
  \<^verbatim>\<open>DecodeRuneInString\<close> does.
\<close>

function indexFunc_loop :: "(nat \<Rightarrow> bool) \<Rightarrow> bool \<Rightarrow> string \<Rightarrow> nat \<Rightarrow> int" where
  "indexFunc_loop f truth s i =
     (if i < length s then
        (case DecodeRuneInString (drop i s) of
           (r, wid) \<Rightarrow> if f r = truth then int i else indexFunc_loop f truth s (i + wid))
      else - 1)"
  by pat_completeness auto
termination
proof (relation "measure (\<lambda>(f, truth, s, i). length s - i)")
  show "wf (measure (\<lambda>(f :: nat \<Rightarrow> bool, truth :: bool, s :: string, i :: nat). length s - i))"
    by simp
next
  fix f :: "nat \<Rightarrow> bool" and truth :: bool and s :: string and i x y :: nat
  assume a: "i < length s" and b: "(x, y) = DecodeRuneInString (drop i s)"
  have "1 \<le> snd (DecodeRuneInString (drop i s))"
    using a by (intro DecodeRune_wid) simp
  with b have "1 \<le> y"
    by (metis snd_conv)
  with a show "((f, truth, s, i + y), f, truth, s, i)
      \<in> measure (\<lambda>(f, truth, s, i). length s - i)"
    by simp
qed

declare indexFunc_loop.simps [simp del]

definition indexFunc :: "string \<Rightarrow> (nat \<Rightarrow> bool) \<Rightarrow> bool \<Rightarrow> int" where
  "indexFunc s f truth = indexFunc_loop f truth s 0"

text \<open>
  \<^verbatim>\<open>lastIndexFunc\<close>: the loop \<^verbatim>\<open>for i := len(s); i > 0; \<close> decodes the last rune of
  the prefix \<^verbatim>\<open>s[0:i]\<close>; the model recurses on that prefix \<open>p\<close>, and \<open>i\<close> is its length.
\<close>

function lastIndexFunc_loop :: "(nat \<Rightarrow> bool) \<Rightarrow> bool \<Rightarrow> string \<Rightarrow> int" where
  "lastIndexFunc_loop f truth p =
     (if 0 < length p then
        (case DecodeLastRuneInString p of
           (r, wid) \<Rightarrow>
             if f r = truth then int (length p - wid)
             else lastIndexFunc_loop f truth (take (length p - wid) p))
      else - 1)"
  by pat_completeness auto
termination
proof (relation "measure (\<lambda>(f, truth, p). length p)")
  show "wf (measure (\<lambda>(f :: nat \<Rightarrow> bool, truth :: bool, p :: string). length p))"
    by simp
next
  fix f :: "nat \<Rightarrow> bool" and truth :: bool and p :: string and x y :: nat
  assume a: "0 < length p" and b: "(x, y) = DecodeLastRuneInString p"
  have "1 \<le> snd (DecodeLastRuneInString p)"
    using a by (intro DecodeLastRune_wid) auto
  with b have "1 \<le> y"
    by (metis snd_conv)
  with a show "((f, truth, take (length p - y) p), f, truth, p)
      \<in> measure (\<lambda>(f, truth, p). length p)"
    by simp
qed

declare lastIndexFunc_loop.simps [simp del]

definition lastIndexFunc :: "string \<Rightarrow> (nat \<Rightarrow> bool) \<Rightarrow> bool \<Rightarrow> int" where
  "lastIndexFunc s f truth = lastIndexFunc_loop f truth s"

definition TrimLeftFunc :: "string \<Rightarrow> (nat \<Rightarrow> bool) \<Rightarrow> string" where
  "TrimLeftFunc s f =
     (let i = indexFunc s f False in if i = - 1 then [] else drop (nat i) s)"

definition TrimRightFunc :: "string \<Rightarrow> (nat \<Rightarrow> bool) \<Rightarrow> string" where
  "TrimRightFunc s f =
     (let i = lastIndexFunc s f False;
          i' = (if 0 \<le> i \<and> 0x80 \<le> byteOf (s ! nat i)
                then i + int (snd (DecodeRuneInString (drop (nat i) s)))
                else i + 1)
      in take (nat i') s)"

definition TrimFunc :: "string \<Rightarrow> (nat \<Rightarrow> bool) \<Rightarrow> string" where
  "TrimFunc s f = TrimRightFunc (TrimLeftFunc s f) f"

text \<open>
  \<^verbatim>\<open>strings.TrimSpace\<close>. The first loop skips ASCII white space from the front and
  hands the rest to \<^verbatim>\<open>TrimFunc\<close> at a byte that is not ASCII (\<open>Inl\<close> is that early
  return, \<open>Inr\<close> the rest \<^verbatim>\<open>s[start:]\<close>). The second loop does the same from the end of
  \<^verbatim>\<open>s[start:stop]\<close>, which it reads backwards: its argument is that slice reversed.
\<close>

fun TrimSpace_front :: "string \<Rightarrow> string + string" where
  "TrimSpace_front [] = Inr []"
| "TrimSpace_front (c # cs) =
     (if 0x80 \<le> byteOf c then Inl (TrimFunc (c # cs) IsSpace)
      else if \<not> asciiSpace c then Inr (c # cs)
      else TrimSpace_front cs)"

fun TrimSpace_back :: "string \<Rightarrow> string" where
  "TrimSpace_back [] = []"
| "TrimSpace_back (c # cs) =
     (if 0x80 \<le> byteOf c then TrimRightFunc (rev (c # cs)) IsSpace
      else if \<not> asciiSpace c then rev (c # cs)
      else TrimSpace_back cs)"

definition TrimSpace :: "string \<Rightarrow> string" where
  "TrimSpace s =
     (case TrimSpace_front s of
        Inl r \<Rightarrow> r
      | Inr t \<Rightarrow> TrimSpace_back (rev t))"

section \<open>The functions of main.go\<close>

text \<open>
  The outcome of running a function: \<open>Panic\<close> is a run-time panic (an index out of
  range), \<open>Unmodelled\<close> marks the one library behaviour left out of the model (the
  text form of an IPv6 address), \<open>Return\<close> is a normal return.
\<close>

datatype 'a exec = Panic | Unmodelled | Return 'a

text \<open>
  The errors of main.go are made with \<^verbatim>\<open>fmt.Errorf\<close>: one constructor for each
  call, with the string that fills \<^verbatim>\<open>%s\<close>; \<open>errorMessage\<close> is the text of the error.
\<close>

datatype error =
    ErrInvalidCIDR string
  | ErrInvalidMaskFormat string
  | ErrNotIPv4Mask string
  | ErrNonContiguousMask string
  | ErrInvalidIPAddress string
  | ErrNotIPv4Address string

fun errorMessage :: "error \<Rightarrow> string" where
  "errorMessage (ErrInvalidCIDR m) = ''invalid CIDR notation: '' @ m"
| "errorMessage (ErrInvalidMaskFormat m) = ''invalid subnet mask format: '' @ m"
| "errorMessage (ErrNotIPv4Mask m) = ''not a valid IPv4 mask: '' @ m"
| "errorMessage (ErrNonContiguousMask m) =
     ''invalid subnet mask: '' @ m @ '' (must have contiguous 1s followed by 0s)''"
| "errorMessage (ErrInvalidIPAddress a) = ''invalid IP address: '' @ a"
| "errorMessage (ErrNotIPv4Address a) = ''not a valid IPv4 address: '' @ a"

text \<open>
  The four kinds of error of the specification, and the kind of each error of the
  code: both messages about the address are \<open>InvalidIPAddress\<close>, both messages about
  a dotted mask that is no IPv4 literal are \<open>InvalidMaskFormat\<close>.
\<close>

datatype SubnetError = InvalidCIDR | InvalidMaskFormat | NonContiguousMask | InvalidIPAddress

fun errorKind :: "error \<Rightarrow> SubnetError" where
  "errorKind (ErrInvalidCIDR m) = InvalidCIDR"
| "errorKind (ErrInvalidMaskFormat m) = InvalidMaskFormat"
| "errorKind (ErrNotIPv4Mask m) = InvalidMaskFormat"
| "errorKind (ErrNonContiguousMask m) = NonContiguousMask"
| "errorKind (ErrInvalidIPAddress a) = InvalidIPAddress"
| "errorKind (ErrNotIPv4Address a) = InvalidIPAddress"

record SubnetResult =
  IPAddress :: string
  SubnetMask :: string
  NetworkAddress :: string
  BroadcastAddress :: string
  MinHostAddress :: string
  MaxHostAddress :: string
  UsableHosts :: string
  Error :: string

text \<open>The conversion \<^verbatim>\<open>uint(x)\<close> of an \<^verbatim>\<open>int\<close>, on 64 bits.\<close>

definition uint_of_int :: "int \<Rightarrow> nat" where
  "uint_of_int x = nat (x mod 2 ^ 64)"

text \<open>A nil slice has length 0 and no element: where only that matters it is the empty list.\<close>

fun sliceOf :: "byte list option \<Rightarrow> byte list" where
  "sliceOf None = []"
| "sliceOf (Some b) = b"

subsection \<open>isValidSubnetMask\<close>

definition maskInt :: "byte list \<Rightarrow> 32 word" where
  "maskInt m =
     push_bit 24 (ucast (m ! 0)) OR push_bit 16 (ucast (m ! 1))
       OR push_bit 8 (ucast (m ! 2)) OR ucast (m ! 3)"

text \<open>
  The loop \<^verbatim>\<open>for i := 31; i >= 0; i--\<close> that counts the leading one-bits and breaks
  at the first zero bit.
\<close>

function leadingOnes_loop :: "32 word \<Rightarrow> int \<Rightarrow> int \<Rightarrow> int" where
  "leadingOnes_loop w i leadingOnes =
     (if 0 \<le> i then
        (if w AND push_bit (uint_of_int i) 1 \<noteq> 0
         then leadingOnes_loop w (i - 1) (leadingOnes + 1)
         else leadingOnes)
      else leadingOnes)"
  by pat_completeness auto
termination
  by (relation "measure (\<lambda>(w, i, leadingOnes). nat (i + 1))") auto

declare leadingOnes_loop.simps [simp del]

text \<open>Reading \<^verbatim>\<open>mask[0]\<close> to \<^verbatim>\<open>mask[3]\<close> panics on a mask of fewer than four bytes.\<close>

definition isValidSubnetMask :: "byte list \<Rightarrow> bool exec" where
  "isValidSubnetMask m =
     (if length m < 4 then Panic
      else
        let leadingOnes = leadingOnes_loop (maskInt m) 31 0;
            expectedMask = push_bit (uint_of_int (32 - leadingOnes)) (0xFFFFFFFF :: 32 word)
        in Return (maskInt m = expectedMask))"

subsection \<open>parseSubnetMask\<close>

text \<open>
  The result is Go's pair of a mask and an error: \<open>(None, Some e)\<close> is
  \<^verbatim>\<open>return nil, err\<close>, and \<open>(m, None)\<close> is \<^verbatim>\<open>return m, nil\<close>. The slice \<^verbatim>\<open>mask[1:]\<close>
  panics on an empty string.
\<close>

definition parseSubnetMask :: "string \<Rightarrow> (byte list option \<times> error option) exec" where
  "parseSubnetMask mask0 =
     (let m = TrimSpace mask0 in
      if HasPrefix m ''/'' then
        (if length m < 1 then Panic
         else case Atoi (drop 1 m) of
                None \<Rightarrow> Return (None, Some (ErrInvalidCIDR m))
              | Some cidr \<Rightarrow>
                  if cidr < 0 \<or> 32 < cidr then Return (None, Some (ErrInvalidCIDR m))
                  else Return (CIDRMask cidr 32, None))
      else
        case ParseIP m of
          None \<Rightarrow> Return (None, Some (ErrInvalidMaskFormat m))
        | Some ip \<Rightarrow>
            (case To4 ip of
               None \<Rightarrow> Return (None, Some (ErrNotIPv4Mask m))
             | Some ipv4 \<Rightarrow>
                 (case isValidSubnetMask ipv4 of
                    Panic \<Rightarrow> Panic
                  | Unmodelled \<Rightarrow> Unmodelled
                  | Return valid \<Rightarrow>
                      if \<not> valid then Return (None, Some (ErrNonContiguousMask m))
                      else Return (Some ipv4, None))))"

subsection \<open>calculateSubnet\<close>

text \<open>Running one step after another: a panic ends the run.\<close>

fun exec_bind :: "'a exec \<Rightarrow> ('a \<Rightarrow> 'b exec) \<Rightarrow> 'b exec" where
  "exec_bind Panic k = Panic"
| "exec_bind Unmodelled k = Unmodelled"
| "exec_bind (Return x) k = k x"

text \<open>
  The loop \<^verbatim>\<open>broadcastAddr[i] = networkAddr[i] | ^mask[i]\<close> over the indices \<open>0\<close> to \<open>3\<close>;
  an index outside \<open>networkAddr\<close>, the mask or \<open>broadcastAddr\<close> panics.
\<close>

fun broadcast_loop :: "nat list \<Rightarrow> byte list \<Rightarrow> byte list \<Rightarrow> byte list \<Rightarrow> byte list exec" where
  "broadcast_loop [] networkAddr m broadcastAddr = Return broadcastAddr"
| "broadcast_loop (i # idx) networkAddr m broadcastAddr =
     (if length networkAddr \<le> i \<or> length m \<le> i \<or> length broadcastAddr \<le> i then Panic
      else broadcast_loop idx networkAddr m
             (broadcastAddr[i := networkAddr ! i OR NOT (m ! i)]))"

text \<open>The built-in \<^verbatim>\<open>copy(dst, src)\<close>: as many bytes as both slices have.\<close>

definition copy_bytes :: "byte list \<Rightarrow> byte list \<Rightarrow> byte list" where
  "copy_bytes dst src =
     (let n = min (length dst) (length src) in take n src @ drop n dst)"

text \<open>
  Adding one over the indices \<open>3\<close> down to \<open>0\<close>: the first byte below 255 is
  incremented and ends the loop, a byte 255 becomes 0 and the loop goes on. An index
  outside the slice panics.
\<close>

fun addOne_loop :: "nat list \<Rightarrow> byte list \<Rightarrow> byte list exec" where
  "addOne_loop [] a = Return a"
| "addOne_loop (i # idx) a =
     (if length a \<le> i then Panic
      else if a ! i < 255 then Return (a[i := a ! i + 1])
      else addOne_loop idx (a[i := 0]))"

text \<open>
  Subtracting one: the first byte above 0 is decremented and ends the loop, a byte 0
  becomes 255 and the loop goes on. An index outside the slice panics.
\<close>

fun subOne_loop :: "nat list \<Rightarrow> byte list \<Rightarrow> byte list exec" where
  "subOne_loop [] a = Return a"
| "subOne_loop (i # idx) a =
     (if length a \<le> i then Panic
      else if 0 < a ! i then Return (a[i := a ! i - 1])
      else subOne_loop idx (a[i := 255]))"

text \<open>
  The number of usable hosts: \<^verbatim>\<open>1 << uint(32-prefixLen)\<close> and the subtraction are
  64-bit \<^verbatim>\<open>int\<close> arithmetic, the comparison with 0 is signed.
\<close>

definition usableHostsOf :: "int \<Rightarrow> int" where
  "usableHostsOf prefixLen =
     (let totalHosts = push_bit (uint_of_int (32 - prefixLen)) (1 :: 64 word);
          usableHosts = totalHosts - 2
      in if sint usableHosts < 0 then 0 else sint usableHosts)"

text \<open>A call of \<^verbatim>\<open>String()\<close>: where the text form is not modelled the outcome is \<open>Unmodelled\<close>.\<close>

definition stringOf :: "byte list \<Rightarrow> string exec" where
  "stringOf ip = (case IP_String ip of None \<Rightarrow> Unmodelled | Some s \<Rightarrow> Return s)"

definition emptyResult :: SubnetResult where
  "emptyResult =
     \<lparr>IPAddress = [], SubnetMask = [], NetworkAddress = [], BroadcastAddress = [],
      MinHostAddress = [], MaxHostAddress = [], UsableHosts = [], Error = []\<rparr>"

text \<open>
  \<^verbatim>\<open>calculateSubnet\<close>, in the order of the source: the address, the mask, the
  network and broadcast addresses, the result with their text forms, then the
  \<^verbatim>\<open>switch\<close> on the prefix length. Every error return has a nil result.
\<close>

definition calculateSubnet :: "string \<Rightarrow> string \<Rightarrow> (SubnetResult option \<times> error option) exec" where
  "calculateSubnet ipStr maskStr =
     (case ParseIP ipStr of
        None \<Rightarrow> Return (None, Some (ErrInvalidIPAddress ipStr))
      | Some ip \<Rightarrow>
      (case To4 ip of
         None \<Rightarrow> Return (None, Some (ErrNotIPv4Address ipStr))
       | Some ipv4 \<Rightarrow>
       exec_bind (parseSubnetMask maskStr) (\<lambda>(m0, err).
         case err of
           Some e \<Rightarrow> Return (None, Some e)
         | None \<Rightarrow>
             (let m = sliceOf m0;
                  prefixLen = fst (Size m);
                  networkAddr = sliceOf (Mask ipv4 m)
              in
              exec_bind (broadcast_loop [0, 1, 2, 3] networkAddr m (replicate 4 0))
                (\<lambda>broadcastAddr.
              exec_bind (stringOf networkAddr) (\<lambda>networkStr.
              exec_bind (stringOf broadcastAddr) (\<lambda>broadcastStr.
                let result = emptyResult\<lparr>NetworkAddress := networkStr,
                                          BroadcastAddress := broadcastStr\<rparr>
                in
                if prefixLen = 32 then
                  exec_bind (stringOf ipv4) (\<lambda>s1.
                  exec_bind (stringOf ipv4) (\<lambda>s2.
                    Return (Some (result\<lparr>NetworkAddress := s1,
                                          BroadcastAddress := s2,
                                          MinHostAddress := ''N/A'',
                                          MaxHostAddress := ''N/A'',
                                          UsableHosts := ''0''\<rparr>), None)))
                else if prefixLen = 31 then
                  Return (Some (result\<lparr>MinHostAddress := ''N/A'',
                                        MaxHostAddress := ''N/A'',
                                        UsableHosts := ''0''\<rparr>), None)
                else
                  exec_bind (addOne_loop [3, 2, 1, 0] (copy_bytes (replicate 4 0) networkAddr))
                    (\<lambda>minHostAddr.
                  exec_bind (subOne_loop [3, 2, 1, 0] (copy_bytes (replicate 4 0) broadcastAddr))
                    (\<lambda>maxHostAddr.
                  exec_bind (stringOf minHostAddr) (\<lambda>minStr.
                  exec_bind (stringOf maxHostAddr) (\<lambda>maxStr.
                    Return (Some (result\<lparr>MinHostAddress := minStr,
                                          MaxHostAddress := maxStr,
                                          UsableHosts := Sprintf_d (usableHostsOf prefixLen)\<rparr>),
                            None))))))))))))"

section \<open>Reading the inputs and the results\<close>

text \<open>
  The address a string stands for in \<^verbatim>\<open>calculateSubnet\<close> and \<^verbatim>\<open>parseSubnetMask\<close>:
  \<^verbatim>\<open>net.ParseIP\<close> followed by \<^verbatim>\<open>To4\<close>.
\<close>

definition ipv4Of :: "string \<Rightarrow> byte list option" where
  "ipv4Of s = (case ParseIP s of None \<Rightarrow> None | Some ip \<Rightarrow> To4 ip)"

text \<open>The bytes the two host loops of \<^verbatim>\<open>calculateSubnet\<close> return, where they return.\<close>

definition addOne :: "byte list \<Rightarrow> byte list" where
  "addOne a = (case addOne_loop [3, 2, 1, 0] a of Return x \<Rightarrow> x | _ \<Rightarrow> a)"

definition subOne :: "byte list \<Rightarrow> byte list" where
  "subOne a = (case subOne_loop [3, 2, 1, 0] a of Return x \<Rightarrow> x | _ \<Rightarrow> a)"

text \<open>
  The result record that \<^verbatim>\<open>calculateSubnet\<close> builds from the four bytes \<open>a\<close> of the
  address and the four bytes \<open>m\<close> of the mask (lemma \<open>calculateSubnet_Return\<close> below).
\<close>

definition hostFields :: "byte list \<Rightarrow> byte list \<Rightarrow> SubnetResult" where
  "hostFields a m =
     (let p = fst (Size m);
          n = map2 (\<lambda>x y. x AND y) a m;
          b = map2 (\<lambda>x y. x OR NOT y) n m
      in if p = 32 then
           emptyResult\<lparr>NetworkAddress := string4 a, BroadcastAddress := string4 a,
             MinHostAddress := ''N/A'', MaxHostAddress := ''N/A'', UsableHosts := ''0''\<rparr>
         else if p = 31 then
           emptyResult\<lparr>NetworkAddress := string4 n, BroadcastAddress := string4 b,
             MinHostAddress := ''N/A'', MaxHostAddress := ''N/A'', UsableHosts := ''0''\<rparr>
         else
           emptyResult\<lparr>NetworkAddress := string4 n, BroadcastAddress := string4 b,
             MinHostAddress := string4 (addOne n),
             MaxHostAddress := string4 (subOne b),
             UsableHosts := Sprintf_d (usableHostsOf p)\<rparr>)"

text \<open>The decimal text of one octet, as \<^verbatim>\<open>appendDecimal\<close> writes it.\<close>

definition octetText :: "byte \<Rightarrow> string" where
  "octetText x = appendDecimal [] x"

definition natText :: "nat \<Rightarrow> string" where
  "natText n = octetText (of_nat n)"

text \<open>
  The number a decimal text stands for: the text is a non-empty string of decimal
  digits, read in base ten.
\<close>

definition decimalValue :: "string \<Rightarrow> nat option" where
  "decimalValue s =
     (if s \<noteq> [] \<and> list_all isDigit s
      then Some (foldl (\<lambda>n c. 10 * n + digitVal c) 0 s) else None)"

text \<open>The four bytes of an address as an unsigned 32-bit number, most significant byte first.\<close>

definition addrInt :: "byte list \<Rightarrow> nat" where
  "addrInt q =
     unat (q ! 0) * 2 ^ 24 + unat (q ! 1) * 2 ^ 16 + unat (q ! 2) * 2 ^ 8 + unat (q ! 3)"

section \<open>Auxiliary definitions of the proofs\<close>

text \<open>
  The text of the first \<open>n\<close> octets of \<open>fs\<close>, each followed by a dot, and the invariant of
  \<open>parseIPv4Fields_loop\<close>: \<open>p\<close> is the part of the string read so far, \<open>cur\<close> the digits
  of the octet being read.
\<close>

fun octs :: "byte list \<Rightarrow> nat \<Rightarrow> string" where
  "octs fs 0 = []"
| "octs fs (Suc n) = octs fs n @ octetText (fs ! n) @ ''.''"

definition loop_inv ::
  "string \<Rightarrow> string \<Rightarrow> char option \<Rightarrow> nat \<Rightarrow> nat \<Rightarrow> nat \<Rightarrow> byte list \<Rightarrow> bool" where
  "loop_inv p cur prev val pos digLen fs \<longleftrightarrow>
     length fs = 4 \<and> pos \<le> 3 \<and> p = octs fs pos @ cur \<and> digLen = length cur \<and> val \<le> 255
     \<and> (cur = [] \<longrightarrow> val = 0) \<and> (cur \<noteq> [] \<longrightarrow> cur = natText val)
     \<and> prev = (if p = [] then None else Some (last p))"

section \<open>Lemmas\<close>

subsection \<open>Normal returns\<close>

lemma To4_length: "To4 ip = Some q \<Longrightarrow> length q = 4"
  by (auto simp: To4_def split: if_splits)

lemma CIDRMask_loop_length: "length (CIDRMask_loop l n) = l"
  by (induction l n rule: CIDRMask_loop.induct) auto

lemma CIDRMask_32: "0 \<le> c \<Longrightarrow> c \<le> 32 \<Longrightarrow> CIDRMask c 32 = Some (CIDRMask_loop 4 (nat c))"
  by (simp add: CIDRMask_def)

lemma isValidSubnetMask_Return:
  "length m = 4 \<Longrightarrow> isValidSubnetMask m
     = Return (maskInt m = push_bit (uint_of_int (32 - leadingOnes_loop (maskInt m) 31 0)) 0xFFFFFFFF)"
  by (simp add: isValidSubnetMask_def Let_def)

lemma HasPrefix_slash: "HasPrefix m ''/'' \<longleftrightarrow> (\<exists>t. m = CHR ''/'' # t)"
  by (cases m) (auto simp: HasPrefix_def)

lemma parseSubnetMask_cases:
  "(\<exists>m. parseSubnetMask s = Return (Some m, None) \<and> length m = 4)
   \<or> (\<exists>e. parseSubnetMask s = Return (None, Some e))"
proof (cases "HasPrefix (TrimSpace s) ''/''")
  case True
  then obtain t where t: "TrimSpace s = CHR ''/'' # t"
    by (auto simp: HasPrefix_slash)
  show ?thesis
  proof (cases "Atoi t")
    case None
    with True t show ?thesis
      by (simp add: parseSubnetMask_def)
  next
    case (Some c)
    with True t show ?thesis
      by (cases "c < 0 \<or> 32 < c")
        (auto simp: parseSubnetMask_def CIDRMask_32 CIDRMask_loop_length)
  qed
next
  case False
  show ?thesis
  proof (cases "ParseIP (TrimSpace s)")
    case None
    with False show ?thesis
      by (simp add: parseSubnetMask_def)
  next
    case (Some ip)
    show ?thesis
    proof (cases "To4 ip")
      case None
      with False Some show ?thesis
        by (simp add: parseSubnetMask_def)
    next
      case q: (Some q)
      then have "length q = 4"
        by (rule To4_length)
      with False Some q show ?thesis
        by (simp add: parseSubnetMask_def isValidSubnetMask_Return)
    qed
  qed
qed

lemma Mask_4: "length a = 4 \<Longrightarrow> length m = 4 \<Longrightarrow> Mask a m = Some (map2 (\<lambda>x y. x AND y) a m)"
  by (simp add: Mask_def Let_def)

lemma len4: "length (a :: 'a list) = 4 \<longleftrightarrow> (\<exists>a0 a1 a2 a3. a = [a0, a1, a2, a3])"
  by (auto simp: length_Suc_conv eval_nat_numeral)

lemma broadcast_loop_4:
  "broadcast_loop [0, 1, 2, 3] [n0, n1, n2, n3] [m0, m1, m2, m3] (replicate 4 0)
     = Return [n0 OR NOT m0, n1 OR NOT m1, n2 OR NOT m2, n3 OR NOT m3]"
  by (simp add: eval_nat_numeral)

lemma IP_String_4: "length a = 4 \<Longrightarrow> IP_String a = Some (string4 a)"
  by (simp add: IP_String_def To4_def)

lemma stringOf_4: "length a = 4 \<Longrightarrow> stringOf a = Return (string4 a)"
  by (simp add: stringOf_def IP_String_4)

lemma copy_bytes_4: "length a = 4 \<Longrightarrow> copy_bytes (replicate 4 0) a = a"
  by (simp add: copy_bytes_def)

lemma addOne_loop_4:
  "addOne_loop [3, 2, 1, 0] [a, b, c, d] =
     Return (if d < 255 then [a, b, c, d + 1]
             else if c < 255 then [a, b, c + 1, 0]
             else if b < 255 then [a, b + 1, 0, 0]
             else if a < 255 then [a + 1, 0, 0, 0]
             else [0, 0, 0, 0])"
  by (simp add: numeral_3_eq_3 numeral_2_eq_2)

lemma subOne_loop_4:
  "subOne_loop [3, 2, 1, 0] [a, b, c, d] =
     Return (if 0 < d then [a, b, c, d - 1]
             else if 0 < c then [a, b, c - 1, 255]
             else if 0 < b then [a, b - 1, 255, 255]
             else if 0 < a then [a - 1, 255, 255, 255]
             else [255, 255, 255, 255])"
  by (simp add: numeral_3_eq_3 numeral_2_eq_2)

lemma addOne_loop_Return:
  assumes "length a = 4"
  shows "addOne_loop [3, 2, 1, 0] a = Return (addOne a) \<and> length (addOne a) = 4"
proof -
  from assms obtain a0 a1 a2 a3 where a: "a = [a0, a1, a2, a3]"
    by (auto simp: len4)
  show ?thesis
    unfolding a addOne_def addOne_loop_4 exec.case by simp
qed

lemma subOne_loop_Return:
  assumes "length a = 4"
  shows "subOne_loop [3, 2, 1, 0] a = Return (subOne a) \<and> length (subOne a) = 4"
proof -
  from assms obtain a0 a1 a2 a3 where a: "a = [a0, a1, a2, a3]"
    by (auto simp: len4)
  show ?thesis
    unfolding a subOne_def subOne_loop_4 exec.case by simp
qed

lemma ipv4Of_length: "ipv4Of s = Some a \<Longrightarrow> length a = 4"
  by (auto simp: ipv4Of_def To4_length split: option.splits)

lemma calculateSubnet_None:
  "ipv4Of ip = None \<Longrightarrow>
     calculateSubnet ip s = Return (None, Some (ErrInvalidIPAddress ip))
     \<or> calculateSubnet ip s = Return (None, Some (ErrNotIPv4Address ip))"
  by (auto simp: ipv4Of_def calculateSubnet_def split: option.splits)

lemma calculateSubnet_mask_error:
  "ipv4Of ip = Some a \<Longrightarrow> parseSubnetMask s = Return (None, Some e) \<Longrightarrow>
     calculateSubnet ip s = Return (None, Some e)"
  by (auto simp: ipv4Of_def calculateSubnet_def split: option.splits)

lemma calculateSubnet_Return:
  assumes a: "ipv4Of ip = Some a"
    and m: "parseSubnetMask s = Return (Some m, None)" "length m = 4"
  shows "calculateSubnet ip s = Return (Some (hostFields a m), None)"
proof -
  from a obtain ip16 where p: "ParseIP ip = Some ip16" "To4 ip16 = Some a"
    by (auto simp: ipv4Of_def split: option.splits)
  from a have la: "length a = 4"
    by (rule ipv4Of_length)
  then obtain a0 a1 a2 a3 where a4: "a = [a0, a1, a2, a3]"
    by (auto simp: len4)
  from m obtain m0 m1 m2 m3 where m4: "m = [m0, m1, m2, m3]"
    by (auto simp: len4)
  define n where "n = [a0 AND m0, a1 AND m1, a2 AND m2, a3 AND m3]"
  define b where "b = map2 (\<lambda>x y. x OR NOT y) n m"
  have mk: "Mask a m = Some n"
    by (simp add: Mask_4 a4 m4 n_def)
  have bl: "broadcast_loop [0, 1, 2, 3] n m (replicate 4 0) = Return b"
    unfolding n_def m4 broadcast_loop_4 by (simp add: b_def n_def m4)
  have len: "length n = 4" "length b = 4"
    by (simp_all add: n_def b_def m4)
  have n': "map2 (\<lambda>x y. x AND y) a m = n"
    by (simp add: a4 m4 n_def)
  have lo: "addOne_loop [3, 2, 1, 0] n = Return (addOne n)" "length (addOne n) = 4"
    "subOne_loop [3, 2, 1, 0] b = Return (subOne b)" "length (subOne b) = 4"
    using addOne_loop_Return [OF len(1)] subOne_loop_Return [OF len(2)] by simp_all
  show ?thesis
    unfolding calculateSubnet_def p option.case m(1) exec_bind.simps prod.case sliceOf.simps
      Let_def mk bl copy_bytes_4 [OF len(1)] copy_bytes_4 [OF len(2)] lo
    using len la lo(2,4)
    by (simp add: hostFields_def Let_def stringOf_4 n' b_def [symmetric])
qed

lemma calculateSubnet_total:
  "(\<exists>r. calculateSubnet ip s = Return (Some r, None))
   \<or> (\<exists>e. calculateSubnet ip s = Return (None, Some e))"
proof (cases "ipv4Of ip")
  case None
  then show ?thesis
    using calculateSubnet_None [of ip s] by auto
next
  case (Some a)
  then show ?thesis
    using parseSubnetMask_cases [of s] calculateSubnet_Return [of ip a s]
      calculateSubnet_mask_error [of ip a s]
    by auto
qed

subsection \<open>Decimal digits and the text of an octet\<close>

lemma digitChar_table:
  "\<forall>d \<in> set [0..<10]. digitChar d = ''0123456789'' ! d"
  by code_simp

lemma digitChar_nth: "d < 10 \<Longrightarrow> digitChar d = ''0123456789'' ! d"
  using digitChar_table by simp

lemma digitChar_props_table:
  "\<forall>d \<in> set [0..<10]. isDigit (digitChar d) \<and> digitVal (digitChar d) = d
     \<and> digitChar d \<noteq> CHR ''.'' \<and> byteOf (digitChar d) < 0x80 \<and> \<not> asciiSpace (digitChar d)
     \<and> digitChar d \<noteq> CHR '':'' \<and> digitChar d \<noteq> CHR ''%'' \<and> digitChar d \<noteq> CHR ''/''"
  by code_simp

lemma digitChar_props:
  assumes "d < 10"
  shows "isDigit (digitChar d)" "digitVal (digitChar d) = d"
    "digitChar d \<noteq> CHR ''.''" "byteOf (digitChar d) < 0x80" "\<not> asciiSpace (digitChar d)"
    "digitChar d \<noteq> CHR '':''" "digitChar d \<noteq> CHR ''%''" "digitChar d \<noteq> CHR ''/''"
  using digitChar_props_table assms by simp_all

lemma digitChar_digitVal: "isDigit c \<Longrightarrow> digitChar (digitVal c) = c"
  by (simp add: isDigit_def digitChar_def digitVal_def byteOf_def)

lemma digitVal_less: "isDigit c \<Longrightarrow> digitVal c < 10"
  by (auto simp: isDigit_def digitVal_def)

lemma isDigit_props:
  assumes "isDigit c"
  shows "c \<noteq> CHR ''.''" "byteOf c < 0x80" "\<not> asciiSpace c" "c \<noteq> CHR '':''" "c \<noteq> CHR ''%''"
    "c \<noteq> CHR ''/''"
  using digitChar_props [OF digitVal_less [OF assms]] digitChar_digitVal [OF assms]
  by simp_all

lemma appendDecimal_append: "appendDecimal b x = b @ octetText x"
  by (simp add: appendDecimal_def octetText_def Let_def)

lemma string4_octetText:
  "string4 q = octetText (q ! 0) @ ''.'' @ octetText (q ! 1) @ ''.'' @ octetText (q ! 2)
     @ ''.'' @ octetText (q ! 3)"
  by (simp add: string4_def appendDecimal_append [of "_ @ _"] octetText_def [symmetric])

lemma octetText_1: "unat x < 10 \<Longrightarrow> octetText x = [digitChar (unat x)]"
  by (simp add: octetText_def appendDecimal_def)

lemma octetText_2: "10 \<le> unat x \<Longrightarrow> unat x < 100 \<Longrightarrow>
    octetText x = [digitChar (unat x div 10), digitChar (unat x mod 10)]"
  by (simp add: octetText_def appendDecimal_def)

lemma octetText_3: "100 \<le> unat x \<Longrightarrow>
    octetText x = [digitChar (unat x div 100), digitChar (unat x div 10 mod 10), digitChar (unat x mod 10)]"
  by (simp add: octetText_def appendDecimal_def)

lemma unat_byte_less: "unat (x :: byte) < 256"
  using unsigned_less [of x, where 'a = nat] by simp

lemma unat_of_nat_byte: "n < 256 \<Longrightarrow> unat (of_nat n :: byte) = n"
  by (simp add: unat_of_nat)

subsection \<open>The IPv4 parser accepts exactly the canonical dotted quads\<close>

lemma loop_digit_step:
  assumes "isDigit c" "\<not> (digLen = 1 \<and> val = 0)" "val * 10 + digitVal c \<le> 255"
  shows "parseIPv4Fields_loop prev (c # rest) val pos digLen fs
    = parseIPv4Fields_loop (Some c) rest (val * 10 + digitVal c) pos (Suc digLen) fs"
  using assms by (auto simp add: Let_def parseIPv4Fields_loop.simps)

lemma loop_dot:
  assumes "isDigit c" "rest \<noteq> []" "pos < 3"
  shows "parseIPv4Fields_loop (Some c) (CHR ''.'' # rest) val pos digLen fs
    = parseIPv4Fields_loop (Some (CHR ''.'')) rest 0 (Suc pos) 0 (fs[pos := of_nat val])"
  using assms isDigit_props(1) [OF assms(1)]
  by (simp add: isDigit_def byteOf_def parseIPv4Fields_loop.simps)

lemma octet_digits:
  obtains (one) "unat x < 10" "octetText x = [digitChar (unat x)]"
  | (two) h t where "h < 10" "t < 10" "h \<noteq> 0" "h * 10 + t = unat x"
      "octetText x = [digitChar h, digitChar t]"
  | (three) h t u where "h < 10" "t < 10" "u < 10" "h \<noteq> 0" "h * 10 + t \<le> 25"
      "(h * 10 + t) * 10 + u = unat x" "octetText x = [digitChar h, digitChar t, digitChar u]"
proof -
  have lt: "unat x < 256" by (rule unat_byte_less)
  consider "unat x < 10" | "10 \<le> unat x" "unat x < 100" | "100 \<le> unat x"
    by linarith
  then show thesis
  proof cases
    case 1
    then show thesis
      by (intro one) (simp_all add: octetText_1)
  next
    case 2
    then show thesis
      by (intro two [of "unat x div 10" "unat x mod 10"]) (auto simp: octetText_2)
  next
    case 3
    define h t u where "h = unat x div 100" and "t = unat x div 10 mod 10" and "u = unat x mod 10"
    have a: "h < 10" "t < 10" "u < 10" "h \<noteq> 0"
      using lt 3 by (auto simp: h_def t_def u_def)
    have "unat x div 100 = unat x div 10 div 10"
      by (simp add: div_mult2_eq)
    then have d: "h * 10 + t = unat x div 10"
      by (simp add: h_def t_def)
    have b: "(h * 10 + t) * 10 + u = unat x"
      by (simp add: d u_def)
    have c: "h * 10 + t \<le> 25"
      using lt by (simp add: d)
    have ot: "octetText x = [digitChar h, digitChar t, digitChar u]"
      using 3 by (simp add: octetText_3 h_def t_def u_def)
    from a c b ot show thesis
      by (rule three)
  qed
qed

lemma loop_digits:
  "parseIPv4Fields_loop prev (octetText x @ rest) 0 pos 0 fs
    = parseIPv4Fields_loop (Some (last (octetText x))) rest (unat x) pos (length (octetText x)) fs"
proof (cases x rule: octet_digits)
  case one
  then show ?thesis
    by (simp add: loop_digit_step digitChar_props)
next
  case (two h t)
  have "parseIPv4Fields_loop prev (digitChar h # digitChar t # rest) 0 pos 0 fs
    = parseIPv4Fields_loop (Some (digitChar h)) (digitChar t # rest) h pos (Suc 0) fs"
    using two by (subst loop_digit_step) (simp_all add: digitChar_props)
  also have "\<dots> = parseIPv4Fields_loop (Some (digitChar t)) rest (h * 10 + t) pos (Suc (Suc 0)) fs"
    using two unat_byte_less [of x] by (subst loop_digit_step) (simp_all add: digitChar_props)
  finally show ?thesis
    using two by simp
next
  case (three h t u)
  have "parseIPv4Fields_loop prev (digitChar h # digitChar t # digitChar u # rest) 0 pos 0 fs
    = parseIPv4Fields_loop (Some (digitChar h)) (digitChar t # digitChar u # rest) h pos (Suc 0) fs"
    using three by (subst loop_digit_step) (simp_all add: digitChar_props)
  also have "\<dots> = parseIPv4Fields_loop (Some (digitChar t)) (digitChar u # rest) (h * 10 + t) pos
      (Suc (Suc 0)) fs"
    using three by (subst loop_digit_step) (simp_all add: digitChar_props)
  also have "\<dots> = parseIPv4Fields_loop (Some (digitChar u)) rest ((h * 10 + t) * 10 + u) pos
      (Suc (Suc (Suc 0))) fs"
    using three unat_byte_less [of x] by (subst loop_digit_step) (simp_all add: digitChar_props)
  finally show ?thesis
    using three by simp
qed

lemma octetText_all_digits: "list_all isDigit (octetText x)"
  by (cases x rule: octet_digits) (simp_all add: digitChar_props)

lemma octetText_nonempty: "octetText x \<noteq> []"
  by (simp add: octetText_def appendDecimal_def Let_def)

lemma octetText_last_digit: "isDigit (last (octetText x))"
  using octetText_all_digits [of x] octetText_nonempty [of x]
  by (simp add: list_all_iff)

lemma loop_octet_dot:
  assumes "rest \<noteq> []" "pos < 3"
  shows "parseIPv4Fields_loop prev (octetText x @ CHR ''.'' # rest) 0 pos 0 fs
    = parseIPv4Fields_loop (Some (CHR ''.'')) rest 0 (Suc pos) 0 (fs[pos := x])"
  by (simp only: loop_digits loop_dot [OF octetText_last_digit assms]) simp

lemma loop_octet_end:
  "parseIPv4Fields_loop prev (octetText x) 0 (Suc (Suc (Suc 0))) 0 fs = Some (fs[3 := x])"
  using loop_digits [of prev x "[]" "Suc (Suc (Suc 0))" fs]
  by (simp add: parseIPv4Fields_loop.simps)

lemma parseIPv4Fields_string4:
  "parseIPv4Fields (string4 [a, b, c, d]) [f0, f1, f2, f3] = Some [a, b, c, d]"
proof -
  have "parseIPv4Fields (string4 [a, b, c, d]) [f0, f1, f2, f3]
    = parseIPv4Fields_loop None (octetText a @ CHR ''.'' # octetText b @ CHR ''.'' #
        octetText c @ CHR ''.'' # octetText d) 0 0 0 [f0, f1, f2, f3]"
    by (simp add: parseIPv4Fields_def string4_octetText)
  also have "\<dots> = parseIPv4Fields_loop (Some (CHR ''.'')) (octetText b @ CHR ''.'' #
        octetText c @ CHR ''.'' # octetText d) 0 (Suc 0) 0 [a, f1, f2, f3]"
    by (subst loop_octet_dot) (simp_all add: octetText_nonempty)
  also have "\<dots> = parseIPv4Fields_loop (Some (CHR ''.'')) (octetText c @ CHR ''.'' #
        octetText d) 0 (Suc (Suc 0)) 0 [a, b, f2, f3]"
    by (subst loop_octet_dot) (simp_all add: octetText_nonempty)
  also have "\<dots> = parseIPv4Fields_loop (Some (CHR ''.'')) (octetText d) 0 (Suc (Suc (Suc 0))) 0
      [a, b, c, f3]"
    by (subst loop_octet_dot) (simp_all add: octetText_nonempty)
  also have "\<dots> = Some [a, b, c, d]"
    by (subst loop_octet_end) (simp_all add: numeral_3_eq_3)
  finally show ?thesis .
qed

lemma octetText_digit: "d < 10 \<Longrightarrow> natText d = [digitChar d]"
  by (simp add: natText_def octetText_1 unat_of_nat_byte)

lemma octetText_snoc:
  assumes "1 \<le> val" "val * 10 + d \<le> 255" "d < 10"
  shows "natText (val * 10 + d) = natText val @ [digitChar d]"
proof -
  have v: "val \<le> 25" using assms by simp
  have u: "unat (of_nat (val * 10 + d) :: byte) = val * 10 + d" "unat (of_nat val :: byte) = val"
    using assms by (simp_all add: unat_of_nat_byte del: of_nat_add of_nat_mult)
  have e: "(val * 10 + d) div 10 = val" "(val * 10 + d) mod 10 = d"
    using assms by simp_all
  have "(val * 10 + d) div 100 = (val * 10 + d) div 10 div 10"
    by (simp add: div_mult2_eq)
  then have f: "(val * 10 + d) div 100 = val div 10"
    by (simp only: e)
  show ?thesis
  proof (cases "val < 10")
    case True
    with assms show ?thesis
      by (simp add: natText_def octetText_1 [of "of_nat val"]
          octetText_2 [of "of_nat (val * 10 + d)"] u e del: of_nat_add of_nat_mult)
  next
    case False
    with assms v show ?thesis
      by (simp add: natText_def octetText_2 [of "of_nat val"]
          octetText_3 [of "of_nat (val * 10 + d)"] u e f del: of_nat_add of_nat_mult)
  qed
qed

lemma octs_update: "pos \<le> k \<Longrightarrow> octs (fs[k := x]) pos = octs fs pos"
  by (induction pos) auto

lemma octs_last: "octs fs pos = [] \<or> last (octs fs pos) = CHR ''.''"
  by (cases pos) auto

lemma string4_nth:
  "length q = 4 \<Longrightarrow> string4 q = octs q 3 @ octetText (q ! 3)"
  by (simp add: string4_octetText numeral_3_eq_3 numeral_2_eq_2)

lemma loop_canonical:
  assumes "parseIPv4Fields_loop prev s val pos digLen fs = Some q"
    and "loop_inv p cur prev val pos digLen fs"
    and "cur = [] \<Longrightarrow> 0 < pos \<Longrightarrow> s \<noteq> []"
  shows "p @ s = string4 q \<and> length q = 4"
  using assms
proof (induction s arbitrary: p cur prev val pos digLen fs)
  case Nil
  from Nil.prems(1) have pos: "\<not> pos < 3" and q: "q = fs[3 := of_nat val]"
    by (auto simp: parseIPv4Fields_loop.simps split: if_splits)
  from Nil.prems(2) have inv: "length fs = 4" "pos \<le> 3" "p = octs fs pos @ cur"
    "val \<le> 255" "cur \<noteq> [] \<longrightarrow> cur = natText val"
    by (auto simp: loop_inv_def)
  from pos inv have p3: "pos = 3" by simp
  with Nil.prems(3) have "cur \<noteq> []" by auto
  with inv have cur: "cur = natText val" by simp
  have "string4 q = octs q 3 @ octetText (q ! 3)"
    using inv q by (intro string4_nth) simp
  also have "\<dots> = octs fs 3 @ natText val"
    using inv by (simp add: q octs_update natText_def)
  finally show ?case
    using inv p3 cur q by simp
next
  case (Cons c rest)
  from Cons.prems(2) have inv: "length fs = 4" "pos \<le> 3" "p = octs fs pos @ cur"
    "digLen = length cur" "val \<le> 255" "cur = [] \<longrightarrow> val = 0"
    "cur \<noteq> [] \<longrightarrow> cur = natText val"
    "prev = (if p = [] then None else Some (last p))"
    by (auto simp: loop_inv_def)
  show ?case
  proof (cases "isDigit c")
    case True
    from Cons.prems(1) True have ok: "\<not> (digLen = 1 \<and> val = 0)" "val * 10 + digitVal c \<le> 255"
      and rec: "parseIPv4Fields_loop (Some c) rest (val * 10 + digitVal c) pos (Suc digLen) fs = Some q"
      by (auto simp: parseIPv4Fields_loop.simps Let_def split: if_splits)
    have dv: "digitVal c < 10" using True by (rule digitVal_less)
    have cur': "cur @ [c] = natText (val * 10 + digitVal c)"
    proof (cases "cur = []")
      case True
      with inv dv \<open>isDigit c\<close> show ?thesis
        by (simp add: octetText_digit digitChar_digitVal)
    next
      case False
      with inv have c0: "cur = natText val" by simp
      have "val \<noteq> 0"
      proof
        assume "val = 0"
        with c0 have "cur = [digitChar 0]" by (simp add: octetText_digit)
        with inv ok \<open>val = 0\<close> show False by simp
      qed
      then show ?thesis
        using octetText_snoc [of val "digitVal c"] ok dv c0 \<open>isDigit c\<close>
        by (simp add: digitChar_digitVal)
    qed
    have "loop_inv (p @ [c]) (cur @ [c]) (Some c) (val * 10 + digitVal c) pos (Suc digLen) fs"
      using inv ok by (simp add: loop_inv_def cur' [symmetric])
    from Cons.IH [OF rec this] show ?thesis
      by simp
  next
    case False
    with Cons.prems(1) have dot: "c = CHR ''.''"
      and ok: "prev \<noteq> None" "rest \<noteq> []" "prev \<noteq> Some (CHR ''.'')" "pos \<noteq> 3"
      and rec: "parseIPv4Fields_loop (Some c) rest 0 (pos + 1) 0 (fs[pos := of_nat val]) = Some q"
      by (auto simp: parseIPv4Fields_loop.simps Let_def split: if_splits)
    have "cur \<noteq> []"
    proof
      assume "cur = []"
      with inv ok octs_last [of fs pos] show False
        by (auto split: if_splits)
    qed
    with inv have c0: "cur = natText val" by simp
    have "loop_inv (p @ [c]) [] (Some c) 0 (pos + 1) 0 (fs[pos := of_nat val])"
      using inv ok c0 dot by (simp add: loop_inv_def octs_update natText_def)
    from Cons.IH [OF rec this] ok show ?thesis
      by simp
  qed
qed

lemma parseIPv4Fields_canonical:
  assumes "parseIPv4Fields s [0, 0, 0, 0] = Some q"
  shows "s = string4 q \<and> length q = 4"
  using loop_canonical [of None s 0 0 0 "[0, 0, 0, 0]" q "[]" "[]"] assms
  by (simp add: parseIPv4Fields_def loop_inv_def)

lemma parseIPv4Fields_iff:
  "parseIPv4Fields s [0, 0, 0, 0] = Some q \<longleftrightarrow> length q = 4 \<and> s = string4 q"
  using parseIPv4Fields_canonical [of s q] parseIPv4Fields_string4 [of _ _ _ _ 0 0 0 0]
  by (auto simp: len4)

subsection \<open>Addresses in text form\<close>

lemma ParseAddr_scan_digits:
  "list_all isDigit ds \<Longrightarrow> ParseAddr_scan s (ds @ CHR ''.'' # rest) = parseIPv4 s"
  by (induction ds) (auto simp: isDigit_props)

lemma ParseAddr_string4: "ParseAddr (string4 [a, b, c, d]) = Some (Addr4 [a, b, c, d])"
proof -
  have "ParseAddr (string4 [a, b, c, d]) = parseIPv4 (string4 [a, b, c, d])"
    unfolding ParseAddr_def
    by (subst (2) string4_octetText) (simp add: ParseAddr_scan_digits octetText_all_digits)
  then show ?thesis
    by (simp add: parseIPv4_def parseIPv4Fields_string4)
qed

lemma To4_v4InV6: "length q = 4 \<Longrightarrow> To4 (v4InV6Prefix @ q) = Some q"
  by (simp add: To4_def v4InV6Prefix_def isZeros_def)

lemma ipv4Of_string4: "ipv4Of (string4 [a, b, c, d]) = Some [a, b, c, d]"
  by (simp add: ipv4Of_def ParseIP_def ParseAddr_string4 To4_v4InV6)

lemma ParseAddr_scan_no_colon:
  "CHR '':'' \<notin> set t \<Longrightarrow> ParseAddr_scan s t = Some a \<Longrightarrow> parseIPv4 s = Some a"
  by (induction t) (auto split: if_splits)

lemma ipv4Of_no_colon:
  assumes "CHR '':'' \<notin> set s"
  shows "ipv4Of s = Some q \<longleftrightarrow> length q = 4 \<and> s = string4 q"
proof
  assume "ipv4Of s = Some q"
  then obtain a where a: "ParseAddr s = Some a" "Zone a = []" "To4 (As16 a) = Some q"
    by (auto simp: ipv4Of_def ParseIP_def split: option.splits if_splits)
  from a(1) assms have "parseIPv4 s = Some a"
    by (auto simp: ParseAddr_def dest: ParseAddr_scan_no_colon)
  then obtain q' where q': "a = Addr4 q'" "parseIPv4Fields s [0, 0, 0, 0] = Some q'"
    by (auto simp: parseIPv4_def)
  then have c: "s = string4 q'" "length q' = 4"
    using parseIPv4Fields_canonical by auto
  with a(3) q' have "q = q'"
    by (simp add: To4_v4InV6)
  with c show "length q = 4 \<and> s = string4 q"
    by simp
next
  assume "length q = 4 \<and> s = string4 q"
  then show "ipv4Of s = Some q"
    by (auto simp: len4 ipv4Of_string4)
qed

lemma string4_no_colon: "CHR '':'' \<notin> set (string4 q)"
proof -
  have "CHR '':'' \<notin> set (octetText x)" for x
    using octetText_all_digits [of x] by (auto simp: list_all_iff dest: isDigit_props(4))
  then show ?thesis
    by (simp add: string4_octetText)
qed

lemma TrimSpace_front_id:
  "byteOf c < 0x80 \<Longrightarrow> \<not> asciiSpace c \<Longrightarrow> TrimSpace_front (c # cs) = Inr (c # cs)"
  by simp

lemma TrimSpace_back_id:
  "byteOf c < 0x80 \<Longrightarrow> \<not> asciiSpace c \<Longrightarrow> TrimSpace_back (c # cs) = rev (c # cs)"
  by simp

lemma TrimSpace_id:
  assumes "s \<noteq> []" "byteOf (hd s) < 0x80" "\<not> asciiSpace (hd s)"
    "byteOf (last s) < 0x80" "\<not> asciiSpace (last s)"
  shows "TrimSpace s = s"
proof -
  from assms obtain c cs where s: "s = c # cs"
    by (cases s) auto
  from assms obtain d ds where r: "rev s = d # ds" "d = last s"
    by (cases s rule: rev_cases) auto
  have "TrimSpace_front s = Inr s"
    using assms s by simp
  moreover have "TrimSpace_back (rev s) = s"
    using assms r TrimSpace_back_id [of d ds] by (metis rev_rev_ident)
  ultimately show ?thesis
    by (simp add: TrimSpace_def)
qed

lemma string4_hd_last: "isDigit (hd (string4 q))" "isDigit (last (string4 q))" "string4 q \<noteq> []"
proof -
  have h: "isDigit (hd (octetText x))" for x
    using octetText_all_digits [of x] octetText_nonempty [of x]
    by (cases "octetText x") auto
  show "isDigit (hd (string4 q))"
    using h [of "q ! 0"] octetText_nonempty [of "q ! 0"] by (simp add: string4_octetText)
  show "isDigit (last (string4 q))"
    using octetText_last_digit [of "q ! 3"] octetText_nonempty [of "q ! 3"]
    by (simp add: string4_octetText)
  show "string4 q \<noteq> []"
    using octetText_nonempty [of "q ! 0"] by (simp add: string4_octetText)
qed

lemma TrimSpace_string4: "TrimSpace (string4 q) = string4 q"
  using string4_hd_last [of q] by (intro TrimSpace_id) (auto dest: isDigit_props)

lemma HasPrefix_string4: "\<not> HasPrefix (string4 q) ''/''"
  using string4_hd_last [of q] by (cases "string4 q") (auto simp: HasPrefix_def dest: isDigit_props)

subsection \<open>Valid masks\<close>

lemma maskInt_cidr_table:
  "\<forall>k \<in> set [0..<33]. maskInt (CIDRMask_loop 4 k) = push_bit (32 - k) 0xFFFFFFFF"
  by code_simp

lemma Size_cidr_table:
  "\<forall>k \<in> set [0..<33]. Size (CIDRMask_loop 4 k) = (int k, 32)"
  by code_simp

lemma bit_test: "0 \<le> i \<Longrightarrow> i < 32 \<Longrightarrow>
    (w AND push_bit (uint_of_int i) 1 \<noteq> 0) = bit (w :: 32 word) (nat i)"
  using and_exp_eq_0_iff_not_bit [of w "nat i"]
  by (simp add: uint_of_int_def push_bit_eq_mult)

lemma bit_prefix_mask:
  "bit (push_bit n (0xFFFFFFFF :: 32 word)) j \<longleftrightarrow> n \<le> j \<and> j < 32"
proof -
  have e: "(0xFFFFFFFF :: 32 word) = - 1"
    by simp
  show ?thesis
    unfolding e by (auto simp: bit_simps)
qed

lemma leadingOnes_loop_mask:
  assumes "- 1 \<le> i" "i < 32"
  shows "leadingOnes_loop (push_bit n 0xFFFFFFFF) i lo
    = lo + (if int n \<le> i then i - int n + 1 else 0)"
  using assms
proof (induction "push_bit n (0xFFFFFFFF :: 32 word)" i lo rule: leadingOnes_loop.induct)
  case (1 i lo)
  show ?case
  proof (cases "0 \<le> i")
    case True
    have "(push_bit n (0xFFFFFFFF :: 32 word) AND push_bit (uint_of_int i) 1 \<noteq> 0)
        = bit (push_bit n (0xFFFFFFFF :: 32 word)) (nat i)"
      using True 1(3) by (rule bit_test)
    also have "\<dots> = (n \<le> nat i)"
      using True 1(3) by (simp only: bit_prefix_mask) auto
    finally have t: "(push_bit n (0xFFFFFFFF :: 32 word) AND push_bit (uint_of_int i) 1 \<noteq> 0)
        = (n \<le> nat i)" .
    show ?thesis
    proof (cases "n \<le> nat i")
      case le: True
      with True t 1 show ?thesis
        by (subst leadingOnes_loop.simps) auto
    next
      case False
      with True t 1 show ?thesis
        by (subst leadingOnes_loop.simps) auto
    qed
  next
    case False
    with 1 show ?thesis
      by (subst leadingOnes_loop.simps) auto
  qed
qed

lemma leadingOnes_cidr:
  "k \<le> 32 \<Longrightarrow> leadingOnes_loop (push_bit (32 - k) 0xFFFFFFFF) 31 0 = int k"
  by (simp add: leadingOnes_loop_mask)

lemma cidr_props:
  assumes "k \<le> 32"
  shows "maskInt (CIDRMask_loop 4 k) = push_bit (32 - k) 0xFFFFFFFF"
    "leadingOnes_loop (push_bit (32 - k) 0xFFFFFFFF) 31 0 = int k"
    "Size (CIDRMask_loop 4 k) = (int k, 32)"
  using maskInt_cidr_table Size_cidr_table leadingOnes_cidr assms by simp_all

lemma leadingOnes_loop_bounds:
  "- 1 \<le> i \<Longrightarrow> lo \<le> leadingOnes_loop w i lo \<and> leadingOnes_loop w i lo \<le> lo + i + 1"
proof (induction w i lo rule: leadingOnes_loop.induct)
  case (1 w i lo)
  show ?case
  proof (cases "0 \<le> i \<and> w AND push_bit (uint_of_int i) 1 \<noteq> 0")
    case True
    with 1 show ?thesis
      by (subst (1 2) leadingOnes_loop.simps) auto
  next
    case False
    with 1 show ?thesis
      by (subst (1 2) leadingOnes_loop.simps) auto
  qed
qed

lemma maskInt_bytes:
  "[ucast (drop_bit 24 (maskInt [a, b, c, d])), ucast (drop_bit 16 (maskInt [a, b, c, d])),
    ucast (drop_bit 8 (maskInt [a, b, c, d])), ucast (maskInt [a, b, c, d])] = [a, b, c, d]"
proof -
  have hi: "\<not> bit x (k + n)" if "8 \<le> k" for x :: byte and k n
    using that bit_imp_le_length [of x "k + n"] by auto
  show ?thesis
    unfolding maskInt_def
    by (auto intro!: bit_word_eqI simp: bit_simps hi)
qed

lemma maskInt_inj:
  assumes "length m = 4" "length m' = 4" "maskInt m = maskInt m'"
  shows "m = m'"
proof -
  from assms obtain a b c d a' b' c' d' where "m = [a, b, c, d]" "m' = [a', b', c', d']"
    by (auto simp: len4)
  with assms(3) maskInt_bytes [of a b c d] maskInt_bytes [of a' b' c' d'] show ?thesis
    by metis
qed

lemma uint_of_int_small: "0 \<le> x \<Longrightarrow> x \<le> 32 \<Longrightarrow> uint_of_int x = nat x"
  by (simp add: uint_of_int_def)

lemma isValidSubnetMask_iff:
  assumes "length q = 4"
  shows "isValidSubnetMask q = Return True
     \<longleftrightarrow> (\<exists>k \<in> {0..32}. maskInt q = push_bit (32 - k) 0xFFFFFFFF)"
proof
  assume "isValidSubnetMask q = Return True"
  with assms have e: "maskInt q
      = push_bit (uint_of_int (32 - leadingOnes_loop (maskInt q) 31 0)) 0xFFFFFFFF"
    by (simp add: isValidSubnetMask_Return)
  define lo where "lo = leadingOnes_loop (maskInt q) 31 0"
  have b: "0 \<le> lo" "lo \<le> 32"
    using leadingOnes_loop_bounds [of 31 0 "maskInt q"] by (simp_all add: lo_def)
  then have "uint_of_int (32 - lo) = 32 - nat lo"
    by (simp add: uint_of_int_small nat_diff_distrib)
  with e have "maskInt q = push_bit (32 - nat lo) 0xFFFFFFFF"
    by (simp add: lo_def)
  moreover have "nat lo \<in> {0..32}"
    using b by simp
  ultimately show "\<exists>k \<in> {0..32}. maskInt q = push_bit (32 - k) 0xFFFFFFFF"
    by blast
next
  assume "\<exists>k \<in> {0..32}. maskInt q = push_bit (32 - k) 0xFFFFFFFF"
  then obtain k where k: "k \<le> 32" "maskInt q = push_bit (32 - k) 0xFFFFFFFF"
    by auto
  then have "leadingOnes_loop (maskInt q) 31 0 = int k"
    by (simp add: cidr_props)
  with k assms show "isValidSubnetMask q = Return True"
    by (simp add: isValidSubnetMask_Return uint_of_int_small nat_diff_distrib)
qed

lemma isValidSubnetMask_bool:
  "length q = 4 \<Longrightarrow> isValidSubnetMask q
     = Return (\<exists>k \<in> {0..32}. maskInt q = push_bit (32 - k) 0xFFFFFFFF)"
  using isValidSubnetMask_iff [of q] isValidSubnetMask_Return [of q]
  by (cases "\<exists>k \<in> {0..32}. maskInt q = push_bit (32 - k) 0xFFFFFFFF") auto

lemma valid_mask_cidr:
  assumes "length q = 4" "isValidSubnetMask q = Return True"
  shows "\<exists>k \<le> 32. q = CIDRMask_loop 4 k"
proof -
  from assms obtain k where k: "k \<le> 32" "maskInt q = push_bit (32 - k) 0xFFFFFFFF"
    by (auto simp: isValidSubnetMask_iff)
  then have "maskInt q = maskInt (CIDRMask_loop 4 k)"
    by (simp add: cidr_props)
  with assms(1) have "q = CIDRMask_loop 4 k"
    by (intro maskInt_inj) (simp_all add: CIDRMask_loop_length)
  with k show ?thesis
    by blast
qed

lemma parseSubnetMask_cidr:
  assumes "parseSubnetMask s = Return (Some m, None)"
  shows "\<exists>k \<le> 32. m = CIDRMask_loop 4 k"
proof (cases "HasPrefix (TrimSpace s) ''/''")
  case True
  then obtain t where t: "TrimSpace s = CHR ''/'' # t"
    by (auto simp: HasPrefix_slash)
  with True assms obtain c where "Atoi t = Some c" "0 \<le> c" "c \<le> 32" "CIDRMask c 32 = Some m"
    by (auto simp: parseSubnetMask_def Let_def split: option.splits if_splits)
  then have "m = CIDRMask_loop 4 (nat c)" "nat c \<le> 32"
    by (simp_all add: CIDRMask_32)
  then show ?thesis
    by blast
next
  case False
  with assms obtain ip where ip: "ParseIP (TrimSpace s) = Some ip" "To4 ip = Some m"
    and v: "isValidSubnetMask m = Return True"
    by (auto simp: parseSubnetMask_def Let_def split: option.splits exec.splits if_splits)
  from ip have "length m = 4"
    by (simp add: To4_length)
  then show ?thesis
    using v by (rule valid_mask_cidr)
qed

subsection \<open>Decimal text and CIDR strings\<close>

lemma fmtInteger_loop_append: "fmtInteger_loop u buf = fmtInteger_loop u [] @ buf"
proof (induction u arbitrary: buf rule: less_induct)
  case (less u)
  show ?case
  proof (cases "10 \<le> u")
    case True
    define d where "d = digitChar (u - u div 10 * 10)"
    from True have lt: "u div 10 < u"
      by simp
    have "fmtInteger_loop u buf = fmtInteger_loop (u div 10) (d # buf)"
      using True by (subst fmtInteger_loop.simps) (simp add: d_def)
    also have "\<dots> = fmtInteger_loop (u div 10) [] @ d # buf"
      by (rule less [OF lt])
    also have "\<dots> = fmtInteger_loop (u div 10) [d] @ buf"
      using less [OF lt, of "[d]"] by simp
    also have "\<dots> = fmtInteger_loop u [] @ buf"
      using True by (subst (2) fmtInteger_loop.simps) (simp add: d_def)
    finally show ?thesis .
  next
    case False
    then show ?thesis
      by (simp add: fmtInteger_loop.simps)
  qed
qed

lemma fmtInteger_small: "u < 10 \<Longrightarrow> fmtInteger_loop u [] = [digitChar u]"
  by (simp add: fmtInteger_loop.simps)

lemma fmtInteger_step:
  "10 \<le> u \<Longrightarrow> fmtInteger_loop u [] = fmtInteger_loop (u div 10) [] @ [digitChar (u mod 10)]"
proof -
  assume a: "10 \<le> u"
  have "u - u div 10 * 10 = u mod 10"
    by (simp add: minus_div_mult_eq_mod)
  with a have "fmtInteger_loop u [] = fmtInteger_loop (u div 10) [digitChar (u mod 10)]"
    by (subst fmtInteger_loop.simps) simp
  then show ?thesis
    using fmtInteger_loop_append [of "u div 10" "[digitChar (u mod 10)]"] by simp
qed

lemma fmtInteger_digits:
  "fmtInteger_loop u [] \<noteq> [] \<and> list_all isDigit (fmtInteger_loop u [])
   \<and> foldl (\<lambda>n c. 10 * n + digitVal c) 0 (fmtInteger_loop u []) = u"
proof (induction u rule: less_induct)
  case (less u)
  show ?case
  proof (cases "10 \<le> u")
    case True
    then have "u div 10 < u"
      by simp
    from less [OF this] True show ?thesis
      by (simp add: fmtInteger_step digitChar_props)
  next
    case False
    then show ?thesis
      by (simp add: fmtInteger_small digitChar_props)
  qed
qed

lemma decimalValue_Sprintf: "0 \<le> v \<Longrightarrow> decimalValue (Sprintf_d v) = Some (nat v)"
  using fmtInteger_digits [of "nat v"] by (simp add: decimalValue_def Sprintf_d_def)

lemma Atoi_digits_foldl:
  "list_all isDigit s \<Longrightarrow> Atoi_digits n s = Some (foldl (\<lambda>n c. 10 * n + digitVal c) n s)"
  by (induction s arbitrary: n) (simp_all add: mult.commute)

lemma Atoi_digits_all: "Atoi_digits n s = Some m \<Longrightarrow> list_all isDigit s"
  by (induction s arbitrary: n) (auto split: if_splits)

lemma Atoi_Sprintf:
  assumes "0 \<le> v" "v < 2 ^ 63"
  shows "Atoi (Sprintf_d v) = Some v"
proof -
  define s where "s = fmtInteger_loop (nat v) []"
  have d: "s \<noteq> []" "list_all isDigit s" "foldl (\<lambda>n c. 10 * n + digitVal c) 0 s = nat v"
    using fmtInteger_digits [of "nat v"] by (simp_all add: s_def)
  then obtain c cs where c: "s = c # cs" "isDigit c"
    by (cases s) auto
  then have "c \<noteq> CHR ''-''" "c \<noteq> CHR ''+''"
    by (auto simp: isDigit_def byteOf_def)
  with c d assms show ?thesis
    using Atoi_digits_foldl [of s 0]
    by (simp add: Atoi_def Sprintf_d_def s_def [symmetric])
qed

lemma Atoi_last_digit:
  assumes "Atoi t = Some c"
  shows "t \<noteq> [] \<and> isDigit (last t)"
proof -
  from assms obtain x xs where t: "t = x # xs"
    by (cases t) (auto simp: Atoi_def)
  define s where "s = (if x = CHR ''-'' \<or> x = CHR ''+'' then xs else t)"
  from assms t have "s \<noteq> []" and "\<exists>n. Atoi_digits 0 s = Some n"
    by (auto simp: Atoi_def Let_def s_def split: if_splits option.splits)
  then have "list_all isDigit s" "s \<noteq> []"
    by (auto dest: Atoi_digits_all)
  then have "isDigit (last s)"
    by (simp add: list_all_iff)
  moreover have "last s = last t"
    using \<open>s \<noteq> []\<close> t by (auto simp: s_def)
  ultimately show ?thesis
    using t by simp
qed

lemma TrimSpace_slash:
  assumes "t \<noteq> []" "isDigit (last t)"
  shows "TrimSpace (CHR ''/'' # t) = CHR ''/'' # t"
proof (rule TrimSpace_id)
  show "byteOf (hd (CHR ''/'' # t)) < 0x80" "\<not> asciiSpace (hd (CHR ''/'' # t))"
    by (simp_all add: byteOf_def asciiSpace_def)
  show "byteOf (last (CHR ''/'' # t)) < 0x80" "\<not> asciiSpace (last (CHR ''/'' # t))"
    using assms by (auto dest: isDigit_props)
qed simp

lemma parseSubnetMask_slash:
  assumes "Atoi t = Some c" "0 \<le> c" "c \<le> 32"
  shows "parseSubnetMask (CHR ''/'' # t) = Return (Some (CIDRMask_loop 4 (nat c)), None)"
  using assms Atoi_last_digit [OF assms(1)]
  by (simp add: parseSubnetMask_def TrimSpace_slash HasPrefix_slash CIDRMask_32)

lemma parseSubnetMask_prefix:
  "k \<le> 32 \<Longrightarrow> parseSubnetMask (CHR ''/'' # Sprintf_d (int k))
     = Return (Some (CIDRMask_loop 4 k), None)"
  using parseSubnetMask_slash [of "Sprintf_d (int k)" "int k"] by (simp add: Atoi_Sprintf)

lemma usableHostsOf_table:
  "\<forall>k \<in> set [0..<33]. usableHostsOf (int k) = (if k = 32 then 0 else 2 ^ (32 - k) - 2)"
  by code_simp

lemma usableHostsOf_prefix:
  "k \<le> 32 \<Longrightarrow> usableHostsOf (int k) = (if k = 32 then 0 else 2 ^ (32 - k) - 2)"
  using usableHostsOf_table by simp

section \<open>The claims\<close>

text \<open>
  C9. For every pair of strings \<open>ip\<close> and \<open>s\<close>, \<open>calculateSubnet ip s\<close> returns normally:
  it does not panic, and it returns either a result and no error or an error and no
  result. The same holds for \<open>parseSubnetMask\<close>.
\<close>

theorem C9_returns_result_or_error:
  "((\<exists>r. calculateSubnet ip s = Return (Some r, None))
      \<or> (\<exists>e. calculateSubnet ip s = Return (None, Some e)))
   \<and> ((\<exists>m. parseSubnetMask s = Return (Some m, None))
      \<or> (\<exists>e. parseSubnetMask s = Return (None, Some e)))"
  using calculateSubnet_total [of ip s] parseSubnetMask_cases [of s] by blast

end
